theory Spec2Isabelle
  imports Main "HOL-Library.Word" "HOL-Library.Signed_Division"
begin

section \<open>The piece queue of tetris.c\<close>

text \<open>
  A shallow embedding of \<^verbatim>\<open>src/tetris.c\<close>: a circular buffer of five pieces
  with the indices \<^verbatim>\<open>frente\<close>, \<^verbatim>\<open>tras\<close> and the counter \<^verbatim>\<open>tamanho\<close>, a global
  id counter and the C library's \<^verbatim>\<open>rand\<close>.

  \<^item> A C \<^verbatim>\<open>int\<close> is a 32-bit word read as two's complement (\<open>sint\<close>); comparisons
    are the signed ones and \<^verbatim>\<open>%\<close> truncates towards zero. \<open>+\<close> and \<open>-\<close> wrap around:
    the C standard leaves the overflow of an \<^verbatim>\<open>int\<close> undefined, and wrapping is what the
    usual targets do with \<^verbatim>\<open>x++\<close> and \<^verbatim>\<open>x--\<close> on a variable in memory.
  \<^item> The array \<^verbatim>\<open>elementos[CAPACIDADE_FILA]\<close> is a list; an access at an index
    outside \<open>0 .. 4\<close> is undefined behaviour in C and the error \<open>OutOfBounds\<close> here.
  \<^item> The globals (the id counter and the state of \<^verbatim>\<open>rand\<close>) are passed and
    returned explicitly. The values \<^verbatim>\<open>rand\<close> returns are not fixed by the program:
    they are a sequence \<open>rand_out\<close> of naturals, read at the position \<open>rand_pos\<close>.
  \<^item> What a function prints is returned as a value of type \<open>saida\<close> (the piece the
    message shows), next to the \<^verbatim>\<open>int\<close> it returns.
\<close>

subsection \<open>Integers and array accesses\<close>

type_synonym c_int = "32 word"

definition CAPACIDADE_FILA :: c_int where
  "CAPACIDADE_FILA = 5"

text \<open>The operator \<^verbatim>\<open>%\<close> of C on two \<^verbatim>\<open>int\<close>s: the sign of the result is the
  sign of the dividend.\<close>

definition c_rem :: "c_int \<Rightarrow> c_int \<Rightarrow> c_int" where
  "c_rem a b = word_of_int (sint a smod sint b)"

datatype error = OutOfBounds

text \<open>An index into \<^verbatim>\<open>elementos\<close> is valid when it is one of \<open>0 .. CAPACIDADE_FILA - 1\<close>.\<close>

definition in_bounds :: "c_int \<Rightarrow> bool" where
  "in_bounds i = (0 \<le> sint i \<and> sint i < sint CAPACIDADE_FILA)"

subsection \<open>Data\<close>

record Peca =
  tipo :: char
  id_peca :: c_int

record FilaPecas =
  elementos :: "Peca list"
  frente :: c_int
  tras :: c_int
  tamanho :: c_int

record globals =
  proximo_id_peca :: c_int
  rand_out :: "nat \<Rightarrow> nat"
  rand_pos :: nat

datatype saida = FilaCheia | PecaInserida Peca | FilaVazia | PecaJogada Peca

subsection \<open>The functions of tetris.c\<close>

definition inicializarFila :: "FilaPecas \<Rightarrow> FilaPecas" where
  "inicializarFila fila = fila\<lparr>frente := 0, tras := - 1, tamanho := 0\<rparr>"

definition rand :: "globals \<Rightarrow> nat \<times> globals" where
  "rand g = (rand_out g (rand_pos g), g\<lparr>rand_pos := Suc (rand_pos g)\<rparr>)"

definition tipos :: "char list" where
  "tipos = [CHR ''I'', CHR ''O'', CHR ''T'', CHR ''L'']"

definition gerarPeca :: "globals \<Rightarrow> Peca \<times> globals" where
  "gerarPeca g =
     (let num_tipos = length tipos;
          (r, g1) = rand g;
          indice_aleatorio = r mod num_tipos;
          nova_peca = \<lparr>tipo = tipos ! indice_aleatorio, id_peca = proximo_id_peca g1\<rparr>
      in (nova_peca, g1\<lparr>proximo_id_peca := proximo_id_peca g1 + 1\<rparr>))"

text \<open>The body of the \<^verbatim>\<open>for\<close> loop of \<^verbatim>\<open>preencherFilaInicial\<close>, with the loop
  variable \<open>i\<close>.\<close>

function preencher_loop ::
  "c_int \<Rightarrow> c_int \<Rightarrow> FilaPecas \<Rightarrow> globals \<Rightarrow> error + (FilaPecas \<times> globals)" where
  "preencher_loop i num_pecas fila g =
     (if i <s num_pecas then
        (let t = c_rem (tras fila + 1) CAPACIDADE_FILA in
         if in_bounds t then
           (let (p, g') = gerarPeca g;
                fila' = fila\<lparr>tras := t,
                              elementos := (elementos fila)[nat (sint t) := p],
                              tamanho := tamanho fila + 1\<rparr>
            in preencher_loop (i + 1) num_pecas fila' g')
         else Inl OutOfBounds)
      else Inr (fila, g))"
  by pat_completeness auto

termination preencher_loop
proof (relation "measure (\<lambda>(i, n, fila, g). nat (sint n - sint i))")
  show "wf (measure (\<lambda>(i, n, fila, g). nat (sint n - sint i)))"
    by simp
next
  fix i num_pecas :: c_int and fila :: FilaPecas and g :: globals
    and t x p g' fila'
  assume "i <s num_pecas"
  then have less: "sint i < sint num_pecas"
    by (simp add: word_sless_alt)
  have "sint num_pecas < 2 ^ 31" and "- (2 ^ 31) \<le> sint i"
    using sint_lt [of num_pecas] sint_ge [of i] by simp_all
  with less have "signed_take_bit 31 (sint i + 1) = sint i + 1"
    by (intro signed_take_bit_int_eq_self) simp_all
  then have "sint (i + 1) = sint i + 1"
    by (simp add: sint_word_add)
  with less show "((i + 1, num_pecas, fila', g'), (i, num_pecas, fila, g))
      \<in> measure (\<lambda>(i, n, fila, g). nat (sint n - sint i))"
    by simp
qed

definition preencherFilaInicial ::
  "FilaPecas \<Rightarrow> c_int \<Rightarrow> globals \<Rightarrow> error + (FilaPecas \<times> globals)" where
  "preencherFilaInicial fila num_pecas g =
     (let num_pecas = (if CAPACIDADE_FILA <s num_pecas then CAPACIDADE_FILA else num_pecas)
      in preencher_loop 0 num_pecas fila g)"

definition inserirPeca ::
  "FilaPecas \<Rightarrow> globals \<Rightarrow> error + (c_int \<times> saida \<times> FilaPecas \<times> globals)" where
  "inserirPeca fila g =
     (if tamanho fila = CAPACIDADE_FILA then Inr (0, FilaCheia, fila, g)
      else
        (let t = c_rem (tras fila + 1) CAPACIDADE_FILA;
             (nova_peca, g') = gerarPeca g
         in if in_bounds t then
              Inr (1, PecaInserida nova_peca,
                   fila\<lparr>tras := t,
                        elementos := (elementos fila)[nat (sint t) := nova_peca],
                        tamanho := tamanho fila + 1\<rparr>,
                   g')
            else Inl OutOfBounds))"

definition jogarPeca :: "FilaPecas \<Rightarrow> error + (c_int \<times> saida \<times> FilaPecas)" where
  "jogarPeca fila =
     (if tamanho fila = 0 then Inr (0, FilaVazia, fila\<lparr>tras := - 1\<rparr>)
      else if in_bounds (frente fila) then
        (let peca_removida = elementos fila ! nat (sint (frente fila))
         in Inr (1, PecaJogada peca_removida,
                 fila\<lparr>frente := c_rem (frente fila + 1) CAPACIDADE_FILA,
                      tamanho := tamanho fila - 1\<rparr>))
      else Inl OutOfBounds)"

text \<open>The \<^verbatim>\<open>while\<close> loop of \<^verbatim>\<open>exibirFila\<close>, with its variables \<open>i\<close> and \<open>count\<close>;
  \<open>acc\<close> is what has been printed so far, piece by piece.\<close>

function exibir_loop ::
  "c_int \<Rightarrow> c_int \<Rightarrow> FilaPecas \<Rightarrow> Peca list \<Rightarrow> error + Peca list" where
  "exibir_loop i count fila acc =
     (if count <s tamanho fila then
        (if in_bounds i then
           exibir_loop (c_rem (i + 1) CAPACIDADE_FILA) (count + 1) fila
             (acc @ [elementos fila ! nat (sint i)])
         else Inl OutOfBounds)
      else Inr acc)"
  by pat_completeness auto

termination exibir_loop
proof (relation "measure (\<lambda>(i, count, fila, acc). nat (sint (tamanho fila) - sint count))")
  show "wf (measure (\<lambda>(i, count, fila, acc). nat (sint (tamanho fila) - sint count)))"
    by simp
next
  fix i count :: c_int and fila :: FilaPecas and acc :: "Peca list"
  assume "count <s tamanho fila"
  then have less: "sint count < sint (tamanho fila)"
    by (simp add: word_sless_alt)
  have "sint (tamanho fila) < 2 ^ 31" and "- (2 ^ 31) \<le> sint count"
    using sint_lt [of "tamanho fila"] sint_ge [of count] by simp_all
  with less have "signed_take_bit 31 (sint count + 1) = sint count + 1"
    by (intro signed_take_bit_int_eq_self) simp_all
  then have "sint (count + 1) = sint count + 1"
    by (simp add: sint_word_add)
  with less show "((c_rem (i + 1) CAPACIDADE_FILA, count + 1, fila,
        acc @ [elementos fila ! nat (sint i)]), (i, count, fila, acc))
      \<in> measure (\<lambda>(i, count, fila, acc). nat (sint (tamanho fila) - sint count))"
    by simp
qed

definition exibirFila :: "FilaPecas \<Rightarrow> error + Peca list" where
  "exibirFila fila =
     (if tamanho fila = 0 then Inr []
      else exibir_loop (frente fila) 0 fila [])"

text \<open>The menu of \<^verbatim>\<open>main\<close>: option 1 calls \<^verbatim>\<open>jogarPeca\<close>, option 2 calls
  \<^verbatim>\<open>inserirPeca\<close>; the value either returns is dropped.\<close>

datatype opcao = Jogar | Inserir

fun executar ::
  "opcao list \<Rightarrow> FilaPecas \<Rightarrow> globals \<Rightarrow> error + (saida list \<times> FilaPecas \<times> globals)" where
  "executar [] fila g = Inr ([], fila, g)"
| "executar (Jogar # ops) fila g =
     (case jogarPeca fila of
        Inl e \<Rightarrow> Inl e
      | Inr (r, msg, fila') \<Rightarrow>
          (case executar ops fila' g of
             Inl e \<Rightarrow> Inl e
           | Inr (msgs, fila'', g'') \<Rightarrow> Inr (msg # msgs, fila'', g'')))"
| "executar (Inserir # ops) fila g =
     (case inserirPeca fila g of
        Inl e \<Rightarrow> Inl e
      | Inr (r, msg, fila', g') \<Rightarrow>
          (case executar ops fila' g' of
             Inl e \<Rightarrow> Inl e
           | Inr (msgs, fila'', g'') \<Rightarrow> Inr (msg # msgs, fila'', g'')))"

text \<open>\<^verbatim>\<open>main\<close> up to its loop, then the menu: the queue is a local variable whose
  initial content is arbitrary, \<open>fila\<close> here.\<close>

definition main ::
  "FilaPecas \<Rightarrow> globals \<Rightarrow> opcao list \<Rightarrow> error + (saida list \<times> FilaPecas \<times> globals)" where
  "main fila g ops =
     (case preencherFilaInicial (inicializarFila fila) CAPACIDADE_FILA g of
        Inl e \<Rightarrow> Inl e
      | Inr (fila', g') \<Rightarrow> executar ops fila' g')"

subsection \<open>Sequences of generated pieces\<close>

text \<open>\<open>n\<close> calls of \<open>gerarPeca\<close> one after the other, with the pieces in the order of
  the calls.\<close>

fun gerar_vezes :: "nat \<Rightarrow> globals \<Rightarrow> Peca list \<times> globals" where
  "gerar_vezes 0 g = ([], g)"
| "gerar_vezes (Suc n) g =
     (let (p, g1) = gerarPeca g; (ps, g2) = gerar_vezes n g1 in (p # ps, g2))"

text \<open>The ids of the pieces that a run of the menu inserted, in the order of the
  messages.\<close>

fun ids_inseridos :: "saida list \<Rightarrow> c_int list" where
  "ids_inseridos [] = []"
| "ids_inseridos (PecaInserida p # msgs) = id_peca p # ids_inseridos msgs"
| "ids_inseridos (FilaCheia # msgs) = ids_inseridos msgs"
| "ids_inseridos (FilaVazia # msgs) = ids_inseridos msgs"
| "ids_inseridos (PecaJogada p # msgs) = ids_inseridos msgs"

subsection \<open>Well-formed queues\<close>

text \<open>\<open>tras\<close> is the index of the last piece put in, or \<open>- 1\<close>.\<close>

definition tras_ok :: "FilaPecas \<Rightarrow> bool" where
  "tras_ok fila = (- 1 \<le> sint (tras fila) \<and> sint (tras fila) < sint CAPACIDADE_FILA)"

text \<open>The three assignments that put a piece at the end of the queue, in
  \<^verbatim>\<open>preencherFilaInicial\<close> and in \<^verbatim>\<open>inserirPeca\<close> alike.\<close>

definition por_no_fim :: "FilaPecas \<Rightarrow> Peca \<Rightarrow> FilaPecas" where
  "por_no_fim fila p =
     (let t = c_rem (tras fila + 1) CAPACIDADE_FILA
      in fila\<lparr>tras := t, elementos := (elementos fila)[nat (sint t) := p],
              tamanho := tamanho fila + 1\<rparr>)"

text \<open>The ranges of the three integers of a queue that the menu works on.\<close>

definition fila_ok :: "FilaPecas \<Rightarrow> bool" where
  "fila_ok fila = (0 \<le> sint (tamanho fila) \<and> sint (tamanho fila) \<le> sint CAPACIDADE_FILA
     \<and> tras_ok fila \<and> in_bounds (frente fila))"

subsection \<open>Sample values\<close>

definition fila_ex :: "c_int \<Rightarrow> c_int \<Rightarrow> c_int \<Rightarrow> FilaPecas" where
  "fila_ex f t n =
     \<lparr>elementos = map (\<lambda>i. \<lparr>tipo = CHR ''T'', id_peca = i\<rparr>) [10, 11, 12, 13, 14],
      frente = f, tras = t, tamanho = n\<rparr>"

definition globais_ex :: "c_int \<Rightarrow> globals" where
  "globais_ex c = \<lparr>proximo_id_peca = c, rand_out = (\<lambda>n. n), rand_pos = 0\<rparr>"

section \<open>Arithmetic of the indices\<close>

declare preencher_loop.simps [simp del] exibir_loop.simps [simp del]

lemma sint_succ_sless: "(i :: c_int) <s n \<Longrightarrow> sint (i + 1) = sint i + 1"
proof -
  assume "i <s n"
  then have "sint i < sint n"
    by (simp add: word_sless_alt)
  moreover have "sint n < 2 ^ 31"
    using sint_lt [of n] by simp
  moreover have "- (2 ^ 31) \<le> sint i"
    using sint_ge [of i] by simp
  ultimately have "signed_take_bit 31 (sint i + 1) = sint i + 1"
    by (intro signed_take_bit_int_eq_self) simp_all
  then show ?thesis
    by (simp add: sint_word_add)
qed

lemma sint_succ_small:
  "- 1 \<le> sint (c :: c_int) \<Longrightarrow> sint c \<le> 5 \<Longrightarrow> sint (c + 1) = sint c + 1"
proof -
  assume "- 1 \<le> sint c" "sint c \<le> 5"
  then have "signed_take_bit 31 (sint c + 1) = sint c + 1"
    by (intro signed_take_bit_int_eq_self) simp_all
  then show ?thesis
    by (simp add: sint_word_add)
qed

lemma small_cases:
  assumes "- 1 \<le> sint (t :: c_int)" and "sint t < 5"
  shows "t = - 1 \<or> t = 0 \<or> t = 1 \<or> t = 2 \<or> t = 3 \<or> t = 4"
proof -
  have "sint t = - 1 \<or> sint t = 0 \<or> sint t = 1 \<or> sint t = 2 \<or> sint t = 3 \<or> sint t = 4"
    using assms by arith
  moreover have "t = word_of_int (sint t)"
    by simp
  ultimately show ?thesis
    by (elim disjE) (simp_all only: , simp_all)
qed

lemma c_rem_succ:
  assumes "- 1 \<le> sint t" and "sint t < 5"
  shows "in_bounds (c_rem (t + 1) CAPACIDADE_FILA)"
    and "sint (c_rem (t + 1) CAPACIDADE_FILA) = (sint t + 1) mod 5"
  using small_cases [OF assms]
  by (elim disjE; simp add: c_rem_def in_bounds_def CAPACIDADE_FILA_def smod_int_alt_def)+

lemma gerarPeca_id: "id_peca (fst (gerarPeca g)) = proximo_id_peca g"
  by (simp add: gerarPeca_def rand_def Let_def)

lemma gerarPeca_globals:
  "snd (gerarPeca g) = g\<lparr>rand_pos := Suc (rand_pos g), proximo_id_peca := proximo_id_peca g + 1\<rparr>"
  by (simp add: gerarPeca_def rand_def Let_def)


lemma tras_ok_in_bounds:
  assumes "tras_ok fila"
  shows "in_bounds (c_rem (tras fila + 1) CAPACIDADE_FILA)"
proof -
  from assms have "- 1 \<le> sint (tras fila)" and "sint (tras fila) < 5"
    by (simp_all add: tras_ok_def CAPACIDADE_FILA_def)
  then show ?thesis
    by (rule c_rem_succ(1))
qed

lemma in_bounds_tras_ok: "in_bounds (tras fila) \<Longrightarrow> tras_ok fila"
  by (simp add: tras_ok_def in_bounds_def)

lemma tras_ok_por_no_fim: "tras_ok fila \<Longrightarrow> tras_ok (por_no_fim fila p)"
  using tras_ok_in_bounds [of fila]
  by (simp add: in_bounds_tras_ok por_no_fim_def Let_def)

lemma por_no_fim_fields:
  "tamanho (por_no_fim fila p) = tamanho fila + 1"
  "frente (por_no_fim fila p) = frente fila"
  "tras (por_no_fim fila p) = c_rem (tras fila + 1) CAPACIDADE_FILA"
  by (simp_all add: por_no_fim_def Let_def)

lemma inserirPeca_cheia_eq:
  "tamanho fila = CAPACIDADE_FILA \<Longrightarrow> inserirPeca fila g = Inr (0, FilaCheia, fila, g)"
  by (simp add: inserirPeca_def)

lemma inserirPeca_ok:
  assumes "tras_ok fila" and "tamanho fila \<noteq> CAPACIDADE_FILA"
  shows "inserirPeca fila g =
    Inr (1, PecaInserida (fst (gerarPeca g)), por_no_fim fila (fst (gerarPeca g)),
         snd (gerarPeca g))"
proof -
  have "in_bounds (c_rem (tras fila + 1) CAPACIDADE_FILA)"
    using assms(1) by (rule tras_ok_in_bounds)
  with assms(2) show ?thesis
    by (simp add: inserirPeca_def por_no_fim_def Let_def split: prod.split)
qed

lemma preencher_loop_stop:
  "\<not> i <s n \<Longrightarrow> preencher_loop i n fila g = Inr (fila, g)"
  by (simp add: preencher_loop.simps)

lemma preencher_loop_step:
  assumes "i <s n" and "tras_ok fila"
  shows "preencher_loop i n fila g =
    preencher_loop (i + 1) n (por_no_fim fila (fst (gerarPeca g))) (snd (gerarPeca g))"
proof -
  have "in_bounds (c_rem (tras fila + 1) CAPACIDADE_FILA)"
    using assms(2) by (rule tras_ok_in_bounds)
  with assms(1) show ?thesis
    by (subst preencher_loop.simps) (simp add: por_no_fim_def Let_def split: prod.split)
qed

text \<open>The loop from \<open>i\<close> to \<open>n\<close> makes \<open>n - i\<close> insertions whatever \<open>tamanho\<close> is.\<close>

lemma preencher_loop_conta:
  "nat (sint n - sint i) = k \<Longrightarrow> tras_ok fila \<Longrightarrow>
   \<exists>fila' g'. preencher_loop i n fila g = Inr (fila', g')
     \<and> tamanho fila' = tamanho fila + of_nat k
     \<and> frente fila' = frente fila
     \<and> tras_ok fila'
     \<and> proximo_id_peca g' = proximo_id_peca g + of_nat k
     \<and> rand_pos g' = rand_pos g + k
     \<and> rand_out g' = rand_out g"
proof (induction k arbitrary: i fila g)
  case 0
  then have "\<not> i <s n"
    by (simp add: word_sless_alt)
  then show ?case
    by (simp add: preencher_loop_stop 0)
next
  case (Suc k)
  then have less: "i <s n"
    by (simp add: word_sless_alt)
  then have "nat (sint n - sint (i + 1)) = k"
    using Suc.prems(1) by (simp add: sint_succ_sless)
  from Suc.IH [OF this tras_ok_por_no_fim [OF Suc.prems(2)],
      of "fst (gerarPeca g)" "snd (gerarPeca g)"]
  show ?case
    by (auto simp: preencher_loop_step [OF less Suc.prems(2)] por_no_fim_fields
        gerarPeca_globals)
qed

lemma sint_pred_small:
  "1 \<le> sint (c :: c_int) \<Longrightarrow> sint (c - 1) = sint c - 1"
proof -
  assume "1 \<le> sint c"
  moreover have "sint c < 2 ^ 31"
    using sint_lt [of c] by simp
  ultimately have "signed_take_bit 31 (sint c - 1) = sint c - 1"
    by (intro signed_take_bit_int_eq_self) simp_all
  then show ?thesis
    by (simp add: sint_word_diff)
qed

lemma sint_eq_5: "sint (c :: c_int) = 5 \<Longrightarrow> c = 5"
proof -
  assume "sint c = 5"
  then have "sint c = sint (5 :: c_int)"
    by simp
  then show ?thesis
    by (rule signed_word_eqI)
qed

lemma in_bounds_succ:
  assumes "in_bounds i"
  shows "in_bounds (c_rem (i + 1) CAPACIDADE_FILA)"
    and "nat (sint (c_rem (i + 1) CAPACIDADE_FILA)) = (nat (sint i) + 1) mod 5"
proof -
  from assms have a: "- 1 \<le> sint i" and b: "sint i < 5" and c: "0 \<le> sint i"
    by (simp_all add: in_bounds_def CAPACIDADE_FILA_def)
  show "in_bounds (c_rem (i + 1) CAPACIDADE_FILA)"
    using a b by (rule c_rem_succ(1))
  have "sint (c_rem (i + 1) CAPACIDADE_FILA) = (sint i + 1) mod 5"
    using a b by (rule c_rem_succ(2))
  with c show "nat (sint (c_rem (i + 1) CAPACIDADE_FILA)) = (nat (sint i) + 1) mod 5"
    by (simp add: nat_mod_distrib nat_add_distrib)
qed

lemma jogarPeca_vazia_eq:
  "tamanho fila = 0 \<Longrightarrow> jogarPeca fila = Inr (0, FilaVazia, fila\<lparr>tras := - 1\<rparr>)"
  by (simp add: jogarPeca_def)

lemma jogarPeca_ok:
  "tamanho fila \<noteq> 0 \<Longrightarrow> in_bounds (frente fila) \<Longrightarrow>
   jogarPeca fila =
     Inr (1, PecaJogada (elementos fila ! nat (sint (frente fila))),
          fila\<lparr>frente := c_rem (frente fila + 1) CAPACIDADE_FILA,
               tamanho := tamanho fila - 1\<rparr>)"
  by (simp add: jogarPeca_def Let_def)

lemma fila_ok_inserirPeca:
  assumes "fila_ok fila"
  shows "\<exists>r msg fila' g'. inserirPeca fila g = Inr (r, msg, fila', g') \<and> fila_ok fila'"
proof (cases "tamanho fila = CAPACIDADE_FILA")
  case True
  with assms show ?thesis
    by (simp add: inserirPeca_cheia_eq)
next
  case False
  from assms have t: "tras_ok fila" and f: "in_bounds (frente fila)"
    and lo: "0 \<le> sint (tamanho fila)" and hi: "sint (tamanho fila) \<le> 5"
    by (simp_all add: fila_ok_def CAPACIDADE_FILA_def)
  have "sint (tamanho fila) \<noteq> 5"
    using False by (auto simp: CAPACIDADE_FILA_def dest: sint_eq_5)
  with hi have "sint (tamanho fila) \<le> 4"
    by simp
  moreover have "sint (tamanho fila + 1) = sint (tamanho fila) + 1"
    using lo hi by (simp add: sint_succ_small)
  ultimately have "fila_ok (por_no_fim fila (fst (gerarPeca g)))"
    using lo f tras_ok_por_no_fim [OF t]
    by (simp add: fila_ok_def por_no_fim_fields CAPACIDADE_FILA_def)
  then show ?thesis
    by (simp add: inserirPeca_ok [OF t False])
qed

lemma fila_ok_jogarPeca:
  assumes "fila_ok fila"
  shows "\<exists>r msg fila'. jogarPeca fila = Inr (r, msg, fila') \<and> fila_ok fila'"
proof (cases "tamanho fila = 0")
  case True
  with assms show ?thesis
    by (simp add: jogarPeca_vazia_eq fila_ok_def tras_ok_def CAPACIDADE_FILA_def)
next
  case False
  from assms have t: "tras_ok fila" and f: "in_bounds (frente fila)"
    and lo: "0 \<le> sint (tamanho fila)" and hi: "sint (tamanho fila) \<le> 5"
    by (simp_all add: fila_ok_def CAPACIDADE_FILA_def)
  have "sint (tamanho fila) \<noteq> 0"
    using False by (simp add: signed_eq_0_iff)
  with lo have "1 \<le> sint (tamanho fila)"
    by simp
  then have "sint (tamanho fila - 1) = sint (tamanho fila) - 1"
    by (rule sint_pred_small)
  then show ?thesis
    using lo hi t in_bounds_succ(1) [OF f] \<open>1 \<le> sint (tamanho fila)\<close>
    by (simp add: jogarPeca_ok [OF False f] fila_ok_def tras_ok_def CAPACIDADE_FILA_def)
qed

lemma executar_fila_ok:
  "fila_ok fila \<Longrightarrow>
   \<exists>msgs fila' g'. executar ops fila g = Inr (msgs, fila', g') \<and> fila_ok fila'"
proof (induction ops arbitrary: fila g)
  case Nil
  then show ?case by simp
next
  case (Cons op ops)
  show ?case
  proof (cases op)
    case Jogar
    from fila_ok_jogarPeca [OF Cons.prems] obtain r msg fila1
      where j: "jogarPeca fila = Inr (r, msg, fila1)" and ok: "fila_ok fila1"
      by blast
    from Cons.IH [OF ok, of g] show ?thesis
      by (auto simp: Jogar j)
  next
    case Inserir
    from fila_ok_inserirPeca [OF Cons.prems, of g] obtain r msg fila1 g1
      where i: "inserirPeca fila g = Inr (r, msg, fila1, g1)" and ok: "fila_ok fila1"
      by blast
    from Cons.IH [OF ok, of g1] show ?thesis
      by (auto simp: Inserir i)
  qed
qed

lemma fila_ok_inicializarFila: "fila_ok (inicializarFila fila)"
  by (simp add: fila_ok_def tras_ok_def in_bounds_def inicializarFila_def CAPACIDADE_FILA_def)

lemma sint_of_nat_small: "k \<le> 5 \<Longrightarrow> sint (of_nat k :: c_int) = int k"
proof -
  assume "k \<le> 5"
  then have "signed_take_bit 31 (int k) = int k"
    by (intro signed_take_bit_int_eq_self) simp_all
  then show ?thesis
    by (simp add: signed_of_nat)
qed

text \<open>The number of iterations of the loop of \<open>preencherFilaInicial\<close>.\<close>

lemma clamp_iter:
  "nat (sint (if CAPACIDADE_FILA <s n then CAPACIDADE_FILA else n) - sint (0 :: c_int))
     = nat (min (sint n) 5)"
  by (simp add: word_sless_alt CAPACIDADE_FILA_def min_def)

lemma preencherFilaInicial_conta:
  assumes "tras_ok fila"
  shows "\<exists>fila' g'. preencherFilaInicial fila n g = Inr (fila', g')
     \<and> tamanho fila' = tamanho fila + of_nat (nat (min (sint n) 5))
     \<and> frente fila' = frente fila
     \<and> tras_ok fila'
     \<and> proximo_id_peca g' = proximo_id_peca g + of_nat (nat (min (sint n) 5))
     \<and> rand_pos g' = rand_pos g + nat (min (sint n) 5)
     \<and> rand_out g' = rand_out g"
  unfolding preencherFilaInicial_def Let_def
  by (rule preencher_loop_conta [OF clamp_iter assms])

lemma executar_replicate_cheia:
  "tamanho fila = CAPACIDADE_FILA \<Longrightarrow>
   executar (replicate n Inserir) fila g = Inr (replicate n FilaCheia, fila, g)"
  by (induction n) (simp_all add: inserirPeca_cheia_eq)

lemma executar_replicate_vazia:
  "tamanho fila = 0 \<Longrightarrow>
   executar (replicate (Suc n) Jogar) fila g
     = Inr (replicate (Suc n) FilaVazia, fila\<lparr>tras := - 1\<rparr>, g)"
proof (induction n arbitrary: fila)
  case 0
  then show ?case
    by (simp add: jogarPeca_vazia_eq)
next
  case (Suc n)
  have "tamanho (fila\<lparr>tras := - 1\<rparr>) = 0"
    using Suc.prems by simp
  from Suc.IH [OF this] show ?case
    by (simp add: jogarPeca_vazia_eq [OF Suc.prems])
qed

lemma executar_inserir_livre:
  "nat (sint n - sint i) = k \<Longrightarrow> tras_ok fila \<Longrightarrow>
   0 \<le> sint (tamanho fila) \<Longrightarrow> sint (tamanho fila) + int k \<le> 5 \<Longrightarrow>
   \<exists>msgs fila' g'. executar (replicate k Inserir) fila g = Inr (msgs, fila', g')
     \<and> preencher_loop i n fila g = Inr (fila', g')
     \<and> FilaCheia \<notin> set msgs \<and> length msgs = k"
proof (induction k arbitrary: i fila g)
  case 0
  then have "\<not> i <s n"
    by (simp add: word_sless_alt)
  then show ?case
    by (simp add: preencher_loop_stop)
next
  case (Suc k)
  let ?p = "fst (gerarPeca g)" and ?g = "snd (gerarPeca g)"
  from Suc.prems(1) have less: "i <s n"
    by (simp add: word_sless_alt)
  then have iter: "nat (sint n - sint (i + 1)) = k"
    using Suc.prems(1) by (simp add: sint_succ_sless)
  have "sint (tamanho fila) \<noteq> 5"
    using Suc.prems(4) by simp
  then have livre: "tamanho fila \<noteq> CAPACIDADE_FILA"
    by (auto simp: CAPACIDADE_FILA_def)
  have "sint (tamanho fila + 1) = sint (tamanho fila) + 1"
    using Suc.prems(3,4) by (simp add: sint_succ_small)
  then have "0 \<le> sint (tamanho (por_no_fim fila ?p))"
    and "sint (tamanho (por_no_fim fila ?p)) + int k \<le> 5"
    using Suc.prems(3,4) by (simp_all add: por_no_fim_fields)
  from Suc.IH [OF iter tras_ok_por_no_fim [OF Suc.prems(2)] this, of ?g]
  show ?case
    by (auto simp: preencher_loop_step [OF less Suc.prems(2)]
        inserirPeca_ok [OF Suc.prems(2) livre])
qed

section \<open>Failing calls\<close>

text \<open>
  Claim C2. On a queue whose \<open>tamanho\<close> equals \<open>CAPACIDADE_FILA\<close>, \<open>inserirPeca\<close>
  returns 0 with the message of the full queue and leaves the queue (array, \<open>frente\<close>,
  \<open>tras\<close>, \<open>tamanho\<close>) and the globals as they were; so do \<open>n\<close> attempts in a row,
  for every \<open>n\<close>.
\<close>

theorem inserirPeca_fila_cheia:
  assumes "tamanho fila = CAPACIDADE_FILA"
  shows "inserirPeca fila g = Inr (0, FilaCheia, fila, g)
    \<and> executar (replicate n Inserir) fila g = Inr (replicate n FilaCheia, fila, g)"
  using assms by (simp add: inserirPeca_cheia_eq executar_replicate_cheia)

theorem inserirPeca_fila_cheia_witness:
  "tamanho (fila_ex 0 4 5) = CAPACIDADE_FILA
   \<and> inserirPeca (fila_ex 0 4 5) (globais_ex 5) = Inr (0, FilaCheia, fila_ex 0 4 5, globais_ex 5)
   \<and> executar (replicate 3 Inserir) (fila_ex 0 4 5) (globais_ex 5)
       = Inr (replicate 3 FilaCheia, fila_ex 0 4 5, globais_ex 5)"
  using inserirPeca_fila_cheia [of "fila_ex 0 4 5" "globais_ex 5" 3]
  by (simp add: fila_ex_def CAPACIDADE_FILA_def)

text \<open>
  Claim C3. On a queue whose \<open>tamanho\<close> is 0, \<open>jogarPeca\<close> returns 0 with the message
  of the empty queue; the queue it leaves differs from the one it found in \<open>tras\<close> only,
  which is \<open>- 1\<close>. A second call on the result changes nothing, and any number of calls in
  a row ends in that same queue.
\<close>

theorem jogarPeca_fila_vazia:
  assumes "tamanho fila = 0"
  shows "jogarPeca fila = Inr (0, FilaVazia, fila\<lparr>tras := - 1\<rparr>)
    \<and> jogarPeca (fila\<lparr>tras := - 1\<rparr>) = Inr (0, FilaVazia, fila\<lparr>tras := - 1\<rparr>)
    \<and> executar (replicate (Suc n) Jogar) fila g
        = Inr (replicate (Suc n) FilaVazia, fila\<lparr>tras := - 1\<rparr>, g)"
  using assms executar_replicate_vazia [OF assms, of n g]
  by (simp add: jogarPeca_vazia_eq)

theorem jogarPeca_fila_vazia_witness:
  "tamanho (fila_ex 1 0 0) = 0
   \<and> jogarPeca (fila_ex 1 0 0) = Inr (0, FilaVazia, fila_ex 1 (- 1) 0)
   \<and> jogarPeca (fila_ex 1 (- 1) 0) = Inr (0, FilaVazia, fila_ex 1 (- 1) 0)
   \<and> executar (replicate (Suc 2) Jogar) (fila_ex 1 0 0) (globais_ex 6)
       = Inr (replicate (Suc 2) FilaVazia, fila_ex 1 (- 1) 0, globais_ex 6)"
  using jogarPeca_fila_vazia [of "fila_ex 1 0 0" 2 "globais_ex 6"]
  by (simp add: fila_ex_def)

text \<open>
  Claim C9. A call of \<open>inserirPeca\<close> on a full queue does not reach \<open>gerarPeca\<close>: the
  id counter and the position in the sequence of \<open>rand\<close> are unchanged, the next
  \<open>gerarPeca\<close> gives the piece it would have given without the attempt, and a run of the
  menu that starts with the failed attempt continues as the run without it.
\<close>

theorem inserirPeca_cheia_nao_gera:
  assumes "tamanho fila = CAPACIDADE_FILA"
  shows "\<exists>r msg fila' g'. inserirPeca fila g = Inr (r, msg, fila', g')
    \<and> r = 0
    \<and> proximo_id_peca g' = proximo_id_peca g
    \<and> rand_pos g' = rand_pos g
    \<and> gerarPeca g' = gerarPeca g
    \<and> executar (Inserir # ops) fila g =
        (case executar ops fila g of
           Inl e \<Rightarrow> Inl e
         | Inr (msgs, fila'', g'') \<Rightarrow> Inr (FilaCheia # msgs, fila'', g''))"
  using assms by (simp add: inserirPeca_cheia_eq)

theorem inserirPeca_cheia_nao_gera_witness:
  "tamanho (fila_ex 0 4 5) = CAPACIDADE_FILA
   \<and> (\<exists>r msg fila' g'. inserirPeca (fila_ex 0 4 5) (globais_ex 5) = Inr (r, msg, fila', g')
    \<and> r = 0
    \<and> proximo_id_peca g' = 5
    \<and> rand_pos g' = 0
    \<and> gerarPeca g' = gerarPeca (globais_ex 5)
    \<and> executar [Inserir, Jogar, Inserir] (fila_ex 0 4 5) (globais_ex 5) =
        (case executar [Jogar, Inserir] (fila_ex 0 4 5) (globais_ex 5) of
           Inl e \<Rightarrow> Inl e
         | Inr (msgs, fila'', g'') \<Rightarrow> Inr (FilaCheia # msgs, fila'', g'')))"
  using inserirPeca_cheia_nao_gera [of "fila_ex 0 4 5" "globais_ex 5" "[Jogar, Inserir]"]
  by (simp add: fila_ex_def CAPACIDADE_FILA_def globais_ex_def)

section \<open>The bound on the number of pieces\<close>

text \<open>
  Claim C4. From a queue set up by \<open>inicializarFila\<close>, and also from the queue that
  \<open>preencherFilaInicial\<close> fills right after (as \<open>main\<close> does), every sequence of
  \<open>jogarPeca\<close> and \<open>inserirPeca\<close> calls runs without an error and ends with
  \<open>0 \<le> tamanho \<le> CAPACIDADE_FILA\<close>. The sequence is arbitrary, so the bound holds after
  each of its calls.
\<close>

theorem tamanho_dentro_da_capacidade:
  "(\<exists>msgs fila' g'. executar ops (inicializarFila fila) g = Inr (msgs, fila', g')
      \<and> 0 \<le> sint (tamanho fila') \<and> sint (tamanho fila') \<le> sint CAPACIDADE_FILA)
   \<and> (\<exists>fila1 g1 msgs fila' g'.
        preencherFilaInicial (inicializarFila fila) n g = Inr (fila1, g1)
      \<and> executar ops fila1 g1 = Inr (msgs, fila', g')
      \<and> 0 \<le> sint (tamanho fila') \<and> sint (tamanho fila') \<le> sint CAPACIDADE_FILA)"
proof
  from executar_fila_ok [OF fila_ok_inicializarFila, of ops fila g]
  show "\<exists>msgs fila' g'. executar ops (inicializarFila fila) g = Inr (msgs, fila', g')
      \<and> 0 \<le> sint (tamanho fila') \<and> sint (tamanho fila') \<le> sint CAPACIDADE_FILA"
    by (auto simp: fila_ok_def)
next
  let ?k = "nat (min (sint n) 5)"
  have ini: "tras_ok (inicializarFila fila)"
    using fila_ok_inicializarFila [of fila] by (simp add: fila_ok_def)
  from preencherFilaInicial_conta [OF ini, of n g] obtain fila1 g1
    where p: "preencherFilaInicial (inicializarFila fila) n g = Inr (fila1, g1)"
      and t: "tamanho fila1 = of_nat ?k" and f: "frente fila1 = 0" and tr: "tras_ok fila1"
    by (auto simp: inicializarFila_def)
  have "?k \<le> 5"
    by simp
  then have "sint (tamanho fila1) = int ?k"
    unfolding t by (rule sint_of_nat_small)
  with f tr have "fila_ok fila1"
    by (simp add: fila_ok_def in_bounds_def CAPACIDADE_FILA_def)
  from executar_fila_ok [OF this, of ops g1] p
  show "\<exists>fila1 g1 msgs fila' g'.
        preencherFilaInicial (inicializarFila fila) n g = Inr (fila1, g1)
      \<and> executar ops fila1 g1 = Inr (msgs, fila', g')
      \<and> 0 \<le> sint (tamanho fila') \<and> sint (tamanho fila') \<le> sint CAPACIDADE_FILA"
    by (auto simp: fila_ok_def)
qed

section \<open>The initial fill\<close>

lemma tras_ok_inicializarFila: "tras_ok (inicializarFila fila)"
  using fila_ok_inicializarFila [of fila] by (simp add: fila_ok_def)

text \<open>
  Claim C7. For every \<open>n\<close> above \<open>CAPACIDADE_FILA\<close>, \<open>preencherFilaInicial\<close> on a
  queue just set up by \<open>inicializarFila\<close> returns normally with \<open>tamanho = 5\<close>; so it
  does for \<open>n = 10\<close>.
\<close>

theorem preencher_acima_da_capacidade:
  "(sint CAPACIDADE_FILA < sint n \<longrightarrow>
      (\<exists>fila' g'. preencherFilaInicial (inicializarFila fila) n g = Inr (fila', g')
         \<and> tamanho fila' = CAPACIDADE_FILA \<and> sint (tamanho fila') = 5))
   \<and> (\<exists>fila' g'. preencherFilaInicial (inicializarFila fila) 10 g = Inr (fila', g')
         \<and> tamanho fila' = CAPACIDADE_FILA \<and> sint (tamanho fila') = 5)"
proof -
  have gen: "\<exists>fila' g'. preencherFilaInicial (inicializarFila fila) m g = Inr (fila', g')
         \<and> tamanho fila' = CAPACIDADE_FILA \<and> sint (tamanho fila') = 5"
    if "sint CAPACIDADE_FILA < sint m" for m
  proof -
    from that have "nat (min (sint m) 5) = 5"
      by (simp add: CAPACIDADE_FILA_def)
    with preencherFilaInicial_conta [OF tras_ok_inicializarFila [of fila], of m g]
    show ?thesis
      by (auto simp: inicializarFila_def CAPACIDADE_FILA_def)
  qed
  have "sint CAPACIDADE_FILA < sint (10 :: c_int)"
    by (simp add: CAPACIDADE_FILA_def)
  with gen show ?thesis
    by blast
qed

theorem preencher_acima_da_capacidade_witness:
  "sint CAPACIDADE_FILA < sint (7 :: c_int)
   \<and> (\<exists>fila' g'. preencherFilaInicial (inicializarFila (fila_ex 3 2 4)) 7 (globais_ex 0)
         = Inr (fila', g') \<and> tamanho fila' = CAPACIDADE_FILA \<and> sint (tamanho fila') = 5)"
  using preencher_acima_da_capacidade [of 7 "fila_ex 3 2 4" "globais_ex 0"]
  by (simp add: CAPACIDADE_FILA_def)



text \<open>
  Claim C8. For \<open>0 \<le> n\<close>, \<open>preencherFilaInicial\<close> on a queue just set up by
  \<open>inicializarFila\<close> ends in the queue and the globals that \<open>min n CAPACIDADE_FILA\<close>
  calls of \<open>inserirPeca\<close> end in; none of these calls finds the queue full, and both ways
  generate \<open>min n CAPACIDADE_FILA\<close> pieces.
\<close>

theorem preencher_refina_inserir:
  assumes "0 \<le> sint n"
  shows "\<exists>msgs fila' g'.
      preencherFilaInicial (inicializarFila fila) n g = Inr (fila', g')
    \<and> executar (replicate (nat (min (sint n) 5)) Inserir) (inicializarFila fila) g
        = Inr (msgs, fila', g')
    \<and> FilaCheia \<notin> set msgs \<and> length msgs = nat (min (sint n) 5)
    \<and> rand_pos g' = rand_pos g + nat (min (sint n) 5)
    \<and> proximo_id_peca g' = proximo_id_peca g + of_nat (nat (min (sint n) 5))"
proof -
  let ?k = "nat (min (sint n) 5)"
  let ?f = "inicializarFila fila"
  have t0: "sint (tamanho ?f) = 0"
    by (simp add: inicializarFila_def)
  then have "0 \<le> sint (tamanho ?f)" and "sint (tamanho ?f) + int ?k \<le> 5"
    by simp_all
  from executar_inserir_livre [OF clamp_iter [of n] tras_ok_inicializarFila [of fila] this,
      where g = g]
    preencherFilaInicial_conta [OF tras_ok_inicializarFila [of fila], of n g]
  show ?thesis
    by (auto simp: preencherFilaInicial_def)
qed

theorem preencher_refina_inserir_witness:
  "0 \<le> sint (3 :: c_int)
   \<and> (\<exists>msgs fila' g'.
      preencherFilaInicial (inicializarFila (fila_ex 2 1 4)) 3 (globais_ex 0) = Inr (fila', g')
    \<and> executar [Inserir, Inserir, Inserir] (inicializarFila (fila_ex 2 1 4)) (globais_ex 0)
        = Inr (msgs, fila', g')
    \<and> FilaCheia \<notin> set msgs \<and> length msgs = 3
    \<and> rand_pos g' = 3 \<and> proximo_id_peca g' = 3)"
  using preencher_refina_inserir [of 3 "fila_ex 2 1 4" "globais_ex 0"]
  by (simp add: globais_ex_def numeral_3_eq_3)

section \<open>The pieces shown and removed\<close>

text \<open>With \<open>frente\<close> an index of the array, \<open>exibirFila\<close> prints the pieces of the
  \<open>tamanho\<close> slots \<open>frente\<close>, \<open>frente + 1\<close>, ... taken modulo 5, and \<open>jogarPeca\<close>
  removes the pieces of these slots in this order.\<close>

lemma in_bounds_nat: "in_bounds i \<Longrightarrow> nat (sint i) < 5"
proof -
  assume "in_bounds i"
  then have "0 \<le> sint i" and "sint i < 5"
    by (simp_all add: in_bounds_def CAPACIDADE_FILA_def)
  then show ?thesis
    by arith
qed

lemma exibir_loop_eq:
  "nat (sint (tamanho fila) - sint count) = k \<Longrightarrow> in_bounds i \<Longrightarrow>
   exibir_loop i count fila acc =
     Inr (acc @ map (\<lambda>j. elementos fila ! ((nat (sint i) + j) mod 5)) [0..<k])"
proof (induction k arbitrary: i count acc)
  case 0
  then have "\<not> count <s tamanho fila"
    by (simp add: word_sless_alt)
  then show ?case
    by (simp add: exibir_loop.simps)
next
  case (Suc k)
  from Suc.prems(1) have less: "count <s tamanho fila"
    by (simp add: word_sless_alt)
  then have iter: "nat (sint (tamanho fila) - sint (count + 1)) = k"
    using Suc.prems(1) by (simp add: sint_succ_sless)
  have "nat (sint i) < 5"
    using Suc.prems(2) by (rule in_bounds_nat)
  then have here: "nat (sint i) mod 5 = nat (sint i)"
    by simp
  have next_i: "(nat (sint (c_rem (i + 1) CAPACIDADE_FILA)) + j) mod 5
      = (nat (sint i) + Suc j) mod 5" for j
    by (simp add: in_bounds_succ(2) [OF Suc.prems(2)] mod_add_left_eq)
  have "exibir_loop i count fila acc =
      exibir_loop (c_rem (i + 1) CAPACIDADE_FILA) (count + 1) fila
        (acc @ [elementos fila ! nat (sint i)])"
    using less Suc.prems(2) by (subst exibir_loop.simps) simp
  also have "\<dots> = Inr ((acc @ [elementos fila ! nat (sint i)])
      @ map (\<lambda>j. elementos fila ! ((nat (sint i) + Suc j) mod 5)) [0..<k])"
    using Suc.IH [OF iter in_bounds_succ(1) [OF Suc.prems(2)]] by (simp add: next_i)
  finally show ?case
    by (simp add: map_upt_Suc here del: upt_Suc)
qed

lemma exibirFila_eq:
  assumes "in_bounds (frente fila)"
  shows "exibirFila fila =
    Inr (map (\<lambda>j. elementos fila ! ((nat (sint (frente fila)) + j) mod 5))
      [0..<nat (sint (tamanho fila))])"
proof (cases "tamanho fila = 0")
  case True
  then show ?thesis
    by (simp add: exibirFila_def)
next
  case False
  have "nat (sint (tamanho fila) - sint (0 :: c_int)) = nat (sint (tamanho fila))"
    by simp
  from exibir_loop_eq [OF this assms, of "[]"] False show ?thesis
    by (simp add: exibirFila_def)
qed

lemma executar_replicate_jogar:
  "int k \<le> sint (tamanho fila) \<Longrightarrow> in_bounds (frente fila) \<Longrightarrow>
   \<exists>fila'. executar (replicate k Jogar) fila g =
       Inr (map (\<lambda>j. PecaJogada (elementos fila ! ((nat (sint (frente fila)) + j) mod 5)))
              [0..<k], fila', g)
     \<and> elementos fila' = elementos fila
     \<and> tras fila' = tras fila
     \<and> sint (tamanho fila') = sint (tamanho fila) - int k"
proof (induction k arbitrary: fila)
  case 0
  then show ?case by simp
next
  case (Suc k)
  let ?f = "fila\<lparr>frente := c_rem (frente fila + 1) CAPACIDADE_FILA,
                 tamanho := tamanho fila - 1\<rparr>"
  from Suc.prems(1) have pos: "1 \<le> sint (tamanho fila)"
    by simp
  then have nz: "tamanho fila \<noteq> 0"
    by auto
  have dec: "sint (tamanho ?f) = sint (tamanho fila) - 1"
    using pos by (simp add: sint_pred_small)
  then have le: "int k \<le> sint (tamanho ?f)"
    using Suc.prems(1) by simp
  have inb: "in_bounds (frente ?f)"
    using in_bounds_succ(1) [OF Suc.prems(2)] by simp
  have "nat (sint (frente fila)) < 5"
    using Suc.prems(2) by (rule in_bounds_nat)
  then have here: "nat (sint (frente fila)) mod 5 = nat (sint (frente fila))"
    by simp
  have next_i: "(nat (sint (c_rem (frente fila + 1) CAPACIDADE_FILA)) + j) mod 5
      = (nat (sint (frente fila)) + Suc j) mod 5" for j
    by (simp add: in_bounds_succ(2) [OF Suc.prems(2)] mod_add_left_eq)
  from Suc.IH [OF le inb] obtain fila'
    where run: "executar (replicate k Jogar) ?f g =
        Inr (map (\<lambda>j. PecaJogada (elementos fila ! ((nat (sint (frente fila)) + Suc j) mod 5)))
               [0..<k], fila', g)"
      and same: "elementos fila' = elementos fila" "tras fila' = tras fila"
      and size: "sint (tamanho fila') = sint (tamanho ?f) - int k"
    by (auto simp: next_i)
  have "executar (replicate (Suc k) Jogar) fila g =
      Inr (map (\<lambda>j. PecaJogada (elementos fila ! ((nat (sint (frente fila)) + j) mod 5)))
             [0..<Suc k], fila', g)"
    unfolding map_upt_Suc by (simp add: jogarPeca_ok [OF nz Suc.prems(2)] run here)
  with same size dec show ?case
    by simp
qed

lemma cinco_elementos:
  assumes "length xs = 5"
  shows "\<exists>a b c d e. xs = [a, b, c, d, e]"
  using assms by (auto simp: length_Suc_conv numeral_eq_Suc)

text \<open>Unfolding these evaluates the functions on a queue whose integers are known.\<close>

lemmas avaliar =
  preencherFilaInicial_def preencher_loop.simps inicializarFila_def inserirPeca_def
  jogarPeca_def exibirFila_def exibir_loop.simps gerarPeca_def rand_def
  in_bounds_def c_rem_def CAPACIDADE_FILA_def smod_int_alt_def Let_def word_sless_alt

lemma cenario_principal:
  assumes "length (elementos fila0) = 5" and "proximo_id_peca g0 = 0"
  shows "\<exists>fila1 g1 ps1 msgs fila2 g2 ps2.
      preencherFilaInicial (inicializarFila fila0) CAPACIDADE_FILA g0 = Inr (fila1, g1)
    \<and> exibirFila fila1 = Inr ps1 \<and> map id_peca ps1 = [0, 1, 2, 3, 4]
    \<and> executar [Jogar, Inserir] fila1 g1 = Inr (msgs, fila2, g2)
    \<and> exibirFila fila2 = Inr ps2 \<and> map id_peca ps2 = [1, 2, 3, 4, 5]"
proof -
  from cinco_elementos [OF assms(1)] obtain a b c d e
    where xs: "elementos fila0 = [a, b, c, d, e]"
    by blast
  show ?thesis
    by (simp add: avaliar xs assms(2))
qed

lemma upt3: "[0..<3] = [0, 1, 2]"
  by (simp add: upt_rec)

text \<open>
  Claim C6 fails on a run of \<open>main\<close>, from the defect that breaks the order of removal:
  on an empty queue \<open>jogarPeca\<close> sets \<open>tras\<close> to \<open>- 1\<close> and leaves \<open>frente\<close>
  where it is. After the initial fill (ids 0 to 4), one \<open>jogarPeca\<close>, one
  \<open>inserirPeca\<close> (id 5), five calls of \<open>jogarPeca\<close> that empty the queue with
  \<open>frente = 1\<close>, a \<open>jogarPeca\<close> on the empty queue and one \<open>inserirPeca\<close> (id 6, put
  in slot 0), the queue holds the piece with id 6 alone. \<open>exibirFila\<close> starts at
  \<open>frente = 1\<close> and prints the piece with id 1, which was removed before. After one more
  \<open>inserirPeca\<close> (id 7, put in slot 1) the queue holds the ids 6 and 7 and
  \<open>exibirFila\<close> prints 7 and then 2. On the queues of the two runs that the claim names
  (lemma \<open>cenario_principal\<close>) the ids printed are 0, 1, 2, 3, 4 and 1, 2, 3, 4, 5.
\<close>

theorem exibirFila_mostra_peca_removida:
  "main (fila_ex 7 8 9) (globais_ex 0)
     [Jogar, Inserir, Jogar, Jogar, Jogar, Jogar, Jogar, Jogar, Inserir]
   = Inr ([PecaJogada \<lparr>tipo = CHR ''I'', id_peca = 0\<rparr>,
           PecaInserida \<lparr>tipo = CHR ''O'', id_peca = 5\<rparr>,
           PecaJogada \<lparr>tipo = CHR ''O'', id_peca = 1\<rparr>,
           PecaJogada \<lparr>tipo = CHR ''T'', id_peca = 2\<rparr>,
           PecaJogada \<lparr>tipo = CHR ''L'', id_peca = 3\<rparr>,
           PecaJogada \<lparr>tipo = CHR ''I'', id_peca = 4\<rparr>,
           PecaJogada \<lparr>tipo = CHR ''O'', id_peca = 5\<rparr>,
           FilaVazia,
           PecaInserida \<lparr>tipo = CHR ''T'', id_peca = 6\<rparr>],
          \<lparr>elementos =
             [\<lparr>tipo = CHR ''T'', id_peca = 6\<rparr>, \<lparr>tipo = CHR ''O'', id_peca = 1\<rparr>,
              \<lparr>tipo = CHR ''T'', id_peca = 2\<rparr>, \<lparr>tipo = CHR ''L'', id_peca = 3\<rparr>,
              \<lparr>tipo = CHR ''I'', id_peca = 4\<rparr>],
           frente = 1, tras = 0, tamanho = 1\<rparr>,
          \<lparr>proximo_id_peca = 7, rand_out = \<lambda>n. n, rand_pos = 7\<rparr>)
   \<and> exibirFila
        \<lparr>elementos =
           [\<lparr>tipo = CHR ''T'', id_peca = 6\<rparr>, \<lparr>tipo = CHR ''O'', id_peca = 1\<rparr>,
            \<lparr>tipo = CHR ''T'', id_peca = 2\<rparr>, \<lparr>tipo = CHR ''L'', id_peca = 3\<rparr>,
            \<lparr>tipo = CHR ''I'', id_peca = 4\<rparr>],
         frente = 1, tras = 0, tamanho = 1\<rparr>
       = Inr [\<lparr>tipo = CHR ''O'', id_peca = 1\<rparr>]
   \<and> main (fila_ex 7 8 9) (globais_ex 0)
     [Jogar, Inserir, Jogar, Jogar, Jogar, Jogar, Jogar, Jogar, Inserir, Inserir]
   = Inr ([PecaJogada \<lparr>tipo = CHR ''I'', id_peca = 0\<rparr>,
           PecaInserida \<lparr>tipo = CHR ''O'', id_peca = 5\<rparr>,
           PecaJogada \<lparr>tipo = CHR ''O'', id_peca = 1\<rparr>,
           PecaJogada \<lparr>tipo = CHR ''T'', id_peca = 2\<rparr>,
           PecaJogada \<lparr>tipo = CHR ''L'', id_peca = 3\<rparr>,
           PecaJogada \<lparr>tipo = CHR ''I'', id_peca = 4\<rparr>,
           PecaJogada \<lparr>tipo = CHR ''O'', id_peca = 5\<rparr>,
           FilaVazia,
           PecaInserida \<lparr>tipo = CHR ''T'', id_peca = 6\<rparr>,
           PecaInserida \<lparr>tipo = CHR ''L'', id_peca = 7\<rparr>],
          \<lparr>elementos =
             [\<lparr>tipo = CHR ''T'', id_peca = 6\<rparr>, \<lparr>tipo = CHR ''L'', id_peca = 7\<rparr>,
              \<lparr>tipo = CHR ''T'', id_peca = 2\<rparr>, \<lparr>tipo = CHR ''L'', id_peca = 3\<rparr>,
              \<lparr>tipo = CHR ''I'', id_peca = 4\<rparr>],
           frente = 1, tras = 1, tamanho = 2\<rparr>,
          \<lparr>proximo_id_peca = 8, rand_out = \<lambda>n. n, rand_pos = 8\<rparr>)
   \<and> exibirFila
        \<lparr>elementos =
           [\<lparr>tipo = CHR ''T'', id_peca = 6\<rparr>, \<lparr>tipo = CHR ''L'', id_peca = 7\<rparr>,
            \<lparr>tipo = CHR ''T'', id_peca = 2\<rparr>, \<lparr>tipo = CHR ''L'', id_peca = 3\<rparr>,
            \<lparr>tipo = CHR ''I'', id_peca = 4\<rparr>],
         frente = 1, tras = 1, tamanho = 2\<rparr>
       = Inr [\<lparr>tipo = CHR ''L'', id_peca = 7\<rparr>, \<lparr>tipo = CHR ''T'', id_peca = 2\<rparr>]"
  by (simp add: main_def avaliar fila_ex_def globais_ex_def tipos_def)

section \<open>The ids\<close>

lemma sint_add_of_nat:
  assumes "sint (c :: c_int) + int j < 2 ^ 31"
  shows "sint (c + of_nat j) = sint c + int j"
proof -
  have "- (2 ^ 31) \<le> sint c + int j"
    using sint_ge [of c] by simp
  with assms have "signed_take_bit 31 (sint c + int j) = sint c + int j"
    by (intro signed_take_bit_int_eq_self) simp_all
  moreover have "c + of_nat j = word_of_int (sint c + int j)"
    by simp
  ultimately show ?thesis
    by (simp only: sint_sbintrunc') simp
qed

lemma gerar_vezes_ids:
  "map id_peca (fst (gerar_vezes n g)) = map (\<lambda>j. proximo_id_peca g + of_nat j) [0..<n]
   \<and> proximo_id_peca (snd (gerar_vezes n g)) = proximo_id_peca g + of_nat n
   \<and> rand_pos (snd (gerar_vezes n g)) = rand_pos g + n"
proof (induction n arbitrary: g)
  case 0
  show ?case by simp
next
  case (Suc n)
  from Suc.IH [of "snd (gerarPeca g)"] show ?case
    unfolding map_upt_Suc
    by (simp add: split_beta gerarPeca_id gerarPeca_globals add.assoc del: upt_Suc)
qed

lemma gerar_vezes_nth:
  assumes "i < n"
  shows "id_peca (fst (gerar_vezes n g) ! i) = proximo_id_peca g + of_nat i"
proof -
  have eq: "map id_peca (fst (gerar_vezes n g)) = map (\<lambda>j. proximo_id_peca g + of_nat j) [0..<n]"
    using gerar_vezes_ids [of n g] by blast
  then have "length (map id_peca (fst (gerar_vezes n g))) = n"
    by simp
  then have "i < length (fst (gerar_vezes n g))"
    using assms by simp
  then have "id_peca (fst (gerar_vezes n g) ! i) = map id_peca (fst (gerar_vezes n g)) ! i"
    by simp
  also have "\<dots> = proximo_id_peca g + of_nat i"
    unfolding eq using assms by simp
  finally show ?thesis .
qed

lemma inserirPeca_ids:
  assumes "inserirPeca fila g = Inr (r, msg, fila', g')"
  shows "(ids_inseridos (msg # msgs) = ids_inseridos msgs \<and> g' = g)
    \<or> (ids_inseridos (msg # msgs) = proximo_id_peca g # ids_inseridos msgs
       \<and> g' = snd (gerarPeca g))"
  using assms
  by (auto simp: inserirPeca_def Let_def gerarPeca_id [symmetric] split: if_splits prod.splits)

lemma jogarPeca_ids:
  assumes "jogarPeca fila = Inr (r, msg, fila')"
  shows "ids_inseridos (msg # msgs) = ids_inseridos msgs"
  using assms by (auto simp: jogarPeca_def Let_def split: if_splits)

lemma executar_ids:
  "executar ops fila g = Inr (msgs, fila', g') \<Longrightarrow>
   ids_inseridos msgs
     = map (\<lambda>j. proximo_id_peca g + of_nat j) [0..<length (ids_inseridos msgs)]
   \<and> proximo_id_peca g' = proximo_id_peca g + of_nat (length (ids_inseridos msgs))"
proof (induction ops arbitrary: fila g msgs)
  case Nil
  then show ?case by simp
next
  case (Cons op ops)
  show ?case
  proof (cases op)
    case Jogar
    with Cons.prems obtain r msg fila1 ms
      where j: "jogarPeca fila = Inr (r, msg, fila1)"
        and rest: "executar ops fila1 g = Inr (ms, fila', g')" and m: "msgs = msg # ms"
      by (auto split: sum.splits)
    from Cons.IH [OF rest] jogarPeca_ids [OF j, of ms] show ?thesis
      by (simp add: m)
  next
    case Inserir
    with Cons.prems obtain r msg fila1 g1 ms
      where i: "inserirPeca fila g = Inr (r, msg, fila1, g1)"
        and rest: "executar ops fila1 g1 = Inr (ms, fila', g')" and m: "msgs = msg # ms"
      by (auto split: sum.splits)
    from inserirPeca_ids [OF i, of ms] show ?thesis
    proof
      assume "ids_inseridos (msg # ms) = ids_inseridos ms \<and> g1 = g"
      with Cons.IH [OF rest] show ?thesis
        by (simp add: m)
    next
      assume a: "ids_inseridos (msg # ms) = proximo_id_peca g # ids_inseridos ms
        \<and> g1 = snd (gerarPeca g)"
      then have "proximo_id_peca g1 = proximo_id_peca g + 1"
        by (simp add: gerarPeca_globals)
      with Cons.IH [OF rest] a show ?thesis
        unfolding m
        by (simp add: map_upt_Suc add.assoc del: upt_Suc)
    qed
  qed
qed

lemma map_sint_ids:
  assumes "sint (c :: c_int) + int n \<le> 2 ^ 31"
  shows "map sint (map (\<lambda>j. c + of_nat j) [0..<n]) = map (\<lambda>j. sint c + int j) [0..<n]"
proof -
  have "sint (c + of_nat j) = sint c + int j" if "j < n" for j
    using that assms by (intro sint_add_of_nat) simp
  then show ?thesis
    by simp
qed

text \<open>
  Claim C5, amended. Each call of \<open>gerarPeca\<close> gives the piece the current value of
  \<open>proximo_id_peca\<close> and adds 1 to it in the arithmetic of \<^verbatim>\<open>int\<close>. Read as integers,
  the ids of \<open>n\<close> calls in a row from the counter \<open>c\<close> are \<open>c, c + 1, ..., c + n - 1\<close>
  as long as \<open>c + n \<le> 2 ^ 31\<close>, and so are the ids of the pieces inserted by any run of
  the menu, whatever calls of \<open>jogarPeca\<close> come in between. From the initial counter 0 this
  covers the first \<open>2 ^ 31\<close> ids, 0 to 2147483647, which have no repeats and no gaps.
\<close>

theorem ids_consecutivos:
  "id_peca (fst (gerarPeca g)) = proximo_id_peca g
   \<and> proximo_id_peca (snd (gerarPeca g)) = proximo_id_peca g + 1
   \<and> (sint (proximo_id_peca g) + int n \<le> 2 ^ 31 \<longrightarrow>
        map (sint \<circ> id_peca) (fst (gerar_vezes n g))
          = map (\<lambda>j. sint (proximo_id_peca g) + int j) [0..<n])
   \<and> (executar ops fila g = Inr (msgs, fila', g')
        \<and> sint (proximo_id_peca g) + int (length (ids_inseridos msgs)) \<le> 2 ^ 31 \<longrightarrow>
        map sint (ids_inseridos msgs)
          = map (\<lambda>j. sint (proximo_id_peca g) + int j) [0..<length (ids_inseridos msgs)])"
proof (intro conjI impI)
  show "id_peca (fst (gerarPeca g)) = proximo_id_peca g"
    by (rule gerarPeca_id)
  show "proximo_id_peca (snd (gerarPeca g)) = proximo_id_peca g + 1"
    by (simp add: gerarPeca_globals)
next
  assume "sint (proximo_id_peca g) + int n \<le> 2 ^ 31"
  from map_sint_ids [OF this] gerar_vezes_ids [of n g]
  show "map (sint \<circ> id_peca) (fst (gerar_vezes n g))
      = map (\<lambda>j. sint (proximo_id_peca g) + int j) [0..<n]"
    by (metis map_map)
next
  assume a: "executar ops fila g = Inr (msgs, fila', g')
     \<and> sint (proximo_id_peca g) + int (length (ids_inseridos msgs)) \<le> 2 ^ 31"
  then have "ids_inseridos msgs
     = map (\<lambda>j. proximo_id_peca g + of_nat j) [0..<length (ids_inseridos msgs)]"
    using executar_ids [of ops fila g msgs fila' g'] by blast
  with map_sint_ids [of "proximo_id_peca g" "length (ids_inseridos msgs)"] a
  show "map sint (ids_inseridos msgs)
      = map (\<lambda>j. sint (proximo_id_peca g) + int j) [0..<length (ids_inseridos msgs)]"
    by metis
qed

theorem ids_consecutivos_witness:
  "sint (proximo_id_peca (globais_ex 5)) + int 3 \<le> 2 ^ 31
   \<and> map (sint \<circ> id_peca) (fst (gerar_vezes 3 (globais_ex 5))) = [5, 6, 7]
   \<and> executar [Inserir, Jogar, Inserir, Inserir, Jogar, Inserir] (fila_ex 1 4 4) (globais_ex 5)
       = Inr ([PecaInserida \<lparr>tipo = CHR ''I'', id_peca = 5\<rparr>,
               PecaJogada \<lparr>tipo = CHR ''T'', id_peca = 11\<rparr>,
               PecaInserida \<lparr>tipo = CHR ''O'', id_peca = 6\<rparr>,
               FilaCheia,
               PecaJogada \<lparr>tipo = CHR ''T'', id_peca = 12\<rparr>,
               PecaInserida \<lparr>tipo = CHR ''T'', id_peca = 7\<rparr>],
              \<lparr>elementos =
                 [\<lparr>tipo = CHR ''I'', id_peca = 5\<rparr>, \<lparr>tipo = CHR ''O'', id_peca = 6\<rparr>,
                  \<lparr>tipo = CHR ''T'', id_peca = 7\<rparr>, \<lparr>tipo = CHR ''T'', id_peca = 13\<rparr>,
                  \<lparr>tipo = CHR ''T'', id_peca = 14\<rparr>],
               frente = 3, tras = 2, tamanho = 5\<rparr>,
              \<lparr>proximo_id_peca = 8, rand_out = \<lambda>n. n, rand_pos = 3\<rparr>)
   \<and> map sint (ids_inseridos
         [PecaInserida \<lparr>tipo = CHR ''I'', id_peca = 5\<rparr>,
          PecaJogada \<lparr>tipo = CHR ''T'', id_peca = 11\<rparr>,
          PecaInserida \<lparr>tipo = CHR ''O'', id_peca = 6\<rparr>,
          FilaCheia,
          PecaJogada \<lparr>tipo = CHR ''T'', id_peca = 12\<rparr>,
          PecaInserida \<lparr>tipo = CHR ''T'', id_peca = 7\<rparr>]) = [5, 6, 7]"
proof -
  have run: "executar [Inserir, Jogar, Inserir, Inserir, Jogar, Inserir] (fila_ex 1 4 4)
      (globais_ex 5)
       = Inr ([PecaInserida \<lparr>tipo = CHR ''I'', id_peca = 5\<rparr>,
               PecaJogada \<lparr>tipo = CHR ''T'', id_peca = 11\<rparr>,
               PecaInserida \<lparr>tipo = CHR ''O'', id_peca = 6\<rparr>,
               FilaCheia,
               PecaJogada \<lparr>tipo = CHR ''T'', id_peca = 12\<rparr>,
               PecaInserida \<lparr>tipo = CHR ''T'', id_peca = 7\<rparr>],
              \<lparr>elementos =
                 [\<lparr>tipo = CHR ''I'', id_peca = 5\<rparr>, \<lparr>tipo = CHR ''O'', id_peca = 6\<rparr>,
                  \<lparr>tipo = CHR ''T'', id_peca = 7\<rparr>, \<lparr>tipo = CHR ''T'', id_peca = 13\<rparr>,
                  \<lparr>tipo = CHR ''T'', id_peca = 14\<rparr>],
               frente = 3, tras = 2, tamanho = 5\<rparr>,
              \<lparr>proximo_id_peca = 8, rand_out = \<lambda>n. n, rand_pos = 3\<rparr>)"
    by (simp add: avaliar fila_ex_def globais_ex_def tipos_def)
  have small: "sint (proximo_id_peca (globais_ex 5)) + int 3 \<le> 2 ^ 31"
    by (simp add: globais_ex_def)
  from ids_consecutivos [of "globais_ex 5" 3 "[Inserir, Jogar, Inserir, Inserir, Jogar, Inserir]"
      "fila_ex 1 4 4"] run small
  show ?thesis
    by (simp add: globais_ex_def upt3)
qed

text \<open>
  Claim C5 as stated, for the whole life of the counter, fails: the counter is an
  \<^verbatim>\<open>int\<close>. From the counter 0, the call number \<open>2 ^ 31\<close> (counted from 0) follows the id
  2147483647 with the id \<open>- 2147483648\<close>, and the call number \<open>2 ^ 32\<close> gives the id 0
  of the first call again.
\<close>

theorem ids_depois_de_INT_MAX:
  "sint (id_peca (fst (gerar_vezes 2147483649 (globais_ex 0)) ! 2147483647)) = 2147483647
   \<and> sint (id_peca (fst (gerar_vezes 2147483649 (globais_ex 0)) ! 2147483648)) = - 2147483648
   \<and> id_peca (fst (gerar_vezes 4294967297 (globais_ex 0)) ! 4294967296)
       = id_peca (fst (gerar_vezes 4294967297 (globais_ex 0)) ! 0)"
proof -
  have "(2147483647 :: nat) < 2147483649" and "(2147483648 :: nat) < 2147483649"
    and "(4294967296 :: nat) < 4294967297" and "(0 :: nat) < 4294967297"
    by simp_all
  note gerar_vezes_nth [OF this(1), of "globais_ex 0"]
    gerar_vezes_nth [OF this(2), of "globais_ex 0"]
    gerar_vezes_nth [OF this(3), of "globais_ex 0"]
    gerar_vezes_nth [OF this(4), of "globais_ex 0"]
  then show ?thesis
    by (simp add: globais_ex_def)
qed

section \<open>The order of removal\<close>

text \<open>On an empty queue whose \<open>frente\<close> is the slot after \<open>tras\<close>, as
  \<open>inicializarFila\<close> leaves it, \<open>k\<close> insertions followed by \<open>k\<close> removals give back
  the inserted pieces in their order.\<close>

lemma ate_cinco: "k \<le> 5 \<Longrightarrow> k = 0 \<or> k = 1 \<or> k = 2 \<or> k = 3 \<or> k = 4 \<or> k = (5 :: nat)"
  by arith

lemma replicate_numerais:
  "replicate 1 x = [x]" "replicate 2 x = [x, x]" "replicate 3 x = [x, x, x]"
  "replicate 4 x = [x, x, x, x]" "replicate 5 x = [x, x, x, x, x]"
  by (simp_all add: numeral_eq_Suc)

lemma gerar_vezes_numerais:
  "gerar_vezes 1 g = (let (p, g1) = gerarPeca g; (ps, g2) = gerar_vezes 0 g1 in (p # ps, g2))"
  "gerar_vezes 2 g = (let (p, g1) = gerarPeca g; (ps, g2) = gerar_vezes 1 g1 in (p # ps, g2))"
  "gerar_vezes 3 g = (let (p, g1) = gerarPeca g; (ps, g2) = gerar_vezes 2 g1 in (p # ps, g2))"
  "gerar_vezes 4 g = (let (p, g1) = gerarPeca g; (ps, g2) = gerar_vezes 3 g1 in (p # ps, g2))"
  "gerar_vezes 5 g = (let (p, g1) = gerarPeca g; (ps, g2) = gerar_vezes 4 g1 in (p # ps, g2))"
  by (simp_all add: numeral_eq_Suc)

lemma fifo_fila_coerente:
  assumes "length (elementos fila) = 5" and "tamanho fila = 0" and "tras_ok fila"
    and "frente fila = c_rem (tras fila + 1) CAPACIDADE_FILA" and "k \<le> 5"
  shows "\<exists>fila' g'. executar (replicate k Inserir @ replicate k Jogar) fila g =
    Inr (map PecaInserida (fst (gerar_vezes k g)) @ map PecaJogada (fst (gerar_vezes k g)),
         fila', g')"
proof -
  from cinco_elementos [OF assms(1)] obtain a b c d e
    where xs: "elementos fila = [a, b, c, d, e]"
    by blast
  from assms(3) have "- 1 \<le> sint (tras fila)" and "sint (tras fila) < 5"
    by (simp_all add: tras_ok_def CAPACIDADE_FILA_def)
  then have t: "tras fila = - 1 \<or> tras fila = 0 \<or> tras fila = 1 \<or> tras fila = 2
      \<or> tras fila = 3 \<or> tras fila = 4"
    by (rule small_cases)
  obtain f t where fila: "fila = \<lparr>elementos = [a, b, c, d, e], frente = f, tras = t, tamanho = 0\<rparr>"
    using xs assms(2) by (cases fila) simp
  from t assms(4) ate_cinco [OF assms(5)] show ?thesis
    unfolding fila
    by (elim disjE; simp add: avaliar replicate_numerais gerar_vezes_numerais split_beta)
qed

text \<open>
  Claim C1 fails on a run of \<open>main\<close>. After the initial fill (ids 0 to 4), one
  \<open>jogarPeca\<close> and one \<open>inserirPeca\<close> (id 5), five calls of \<open>jogarPeca\<close> empty the
  queue with \<open>frente = 1\<close>. A further \<open>jogarPeca\<close> finds it empty and sets \<open>tras\<close> to
  \<open>- 1\<close>, leaving \<open>frente\<close> at 1. The next \<open>inserirPeca\<close> then stores the piece with id 6
  in slot 0, and the \<open>jogarPeca\<close> that follows reads slot 1: it removes the piece with
  id 1, which had left the queue before, and the piece with id 6 stays behind.
\<close>

theorem fifo_quebrado_apos_fila_vazia:
  "main (fila_ex 7 8 9) (globais_ex 0)
     [Jogar, Inserir, Jogar, Jogar, Jogar, Jogar, Jogar, Jogar, Inserir, Jogar]
   = Inr ([PecaJogada \<lparr>tipo = CHR ''I'', id_peca = 0\<rparr>,
           PecaInserida \<lparr>tipo = CHR ''O'', id_peca = 5\<rparr>,
           PecaJogada \<lparr>tipo = CHR ''O'', id_peca = 1\<rparr>,
           PecaJogada \<lparr>tipo = CHR ''T'', id_peca = 2\<rparr>,
           PecaJogada \<lparr>tipo = CHR ''L'', id_peca = 3\<rparr>,
           PecaJogada \<lparr>tipo = CHR ''I'', id_peca = 4\<rparr>,
           PecaJogada \<lparr>tipo = CHR ''O'', id_peca = 5\<rparr>,
           FilaVazia,
           PecaInserida \<lparr>tipo = CHR ''T'', id_peca = 6\<rparr>,
           PecaJogada \<lparr>tipo = CHR ''O'', id_peca = 1\<rparr>],
          \<lparr>elementos =
             [\<lparr>tipo = CHR ''T'', id_peca = 6\<rparr>, \<lparr>tipo = CHR ''O'', id_peca = 1\<rparr>,
              \<lparr>tipo = CHR ''T'', id_peca = 2\<rparr>, \<lparr>tipo = CHR ''L'', id_peca = 3\<rparr>,
              \<lparr>tipo = CHR ''I'', id_peca = 4\<rparr>],
           frente = 2, tras = 0, tamanho = 0\<rparr>,
          \<lparr>proximo_id_peca = 7, rand_out = \<lambda>n. n, rand_pos = 7\<rparr>)"
  by (simp add: main_def avaliar fila_ex_def globais_ex_def tipos_def)

end
